theory Spec2Isabelle
  imports Complex_Main "HOL-Library.AList"
begin

section \<open>Python values held in the session state\<close>

text \<open>
  The state manager of \<^verbatim>\<open>utils/state_manager.py\<close> keeps, under the key
  \<^verbatim>\<open>"tabs_state"\<close> of Streamlit's session state, a dictionary from tab names to
  dictionaries from keys to arbitrary Python values. A value is modelled as a finite tree.
  \<^item> \<open>PFloat q\<close> is a finite float, given by its exact rational value (NaN and the
    infinities are not modelled);
  \<^item> \<open>PDict\<close> lists the items of a dictionary in insertion order, the order in which
    \<^verbatim>\<open>items()\<close> and the JSON encoder visit them; the keys of a nested dictionary are
    strings, integers, booleans, \<^verbatim>\<open>None\<close>, or some other hashable object (float keys
    are not modelled);
  \<^item> \<open>PObj n\<close> is an object of any other type (a set, a data frame, ...), \<open>n\<close> telling
    such objects apart.
\<close>

datatype pykey = KStr string | KInt int | KBool bool | KNone | KOther nat

datatype pyval =
    PNone
  | PBool bool
  | PInt int
  | PFloat rat
  | PStr string
  | PList "pyval list"
  | PTuple "pyval list"
  | PDict "(pykey \<times> pyval) list"
  | PObj nat

datatype error = KeyError | TypeError | ValueError | RecursionError

subsection \<open>Dictionaries with string keys\<close>

text \<open>
  The two outer levels are typed by the source (\<^verbatim>\<open>tab_name: str\<close>, \<^verbatim>\<open>key: str\<close>,
  \<^verbatim>\<open>Dict[str, Any]\<close>). A dictionary is the list of its items in insertion order, with
  distinct keys. Assignment \<^verbatim>\<open>d[k] = v\<close> is \<^const>\<open>AList.update\<close>: it overwrites in
  place when the key is present and appends otherwise. \<^verbatim>\<open>d.pop(k, None)\<close> is
  \<^const>\<open>AList.delete\<close>.
\<close>

definition dict_get :: "(string \<times> 'v) list \<Rightarrow> string \<Rightarrow> 'v \<Rightarrow> 'v" where
  "dict_get d key dflt = (case map_of d key of None \<Rightarrow> dflt | Some v \<Rightarrow> v)"

definition dict_update :: "(string \<times> 'v) list \<Rightarrow> (string \<times> 'v) list \<Rightarrow> (string \<times> 'v) list" where
  \<comment> \<open>\<^verbatim>\<open>d.update(other)\<close>: assigns the items of \<open>other\<close> in their order\<close>
  "dict_update d other = fold (\<lambda>(k, v). AList.update k v) other d"

type_synonym tab_state = "(string \<times> pyval) list"
type_synonym tabs = "(string \<times> tab_state) list"

text \<open>
  \<^verbatim>\<open>st.session_state\<close>: only its key \<^verbatim>\<open>"tabs_state"\<close> is used; \<open>None\<close> says that the
  key is absent.
\<close>

record session_state =
  tabs_state :: "tabs option"

section \<open>The state manager\<close>

text \<open>
  A \<^verbatim>\<open>StateManager\<close> object holds only \<^verbatim>\<open>self.tab_name\<close>, so a handle is its tab
  name, the first argument of every method below. A method takes the session state and
  returns an exception or its return value with the session state it leaves. Every
  exception of these methods is raised before the method has assigned anything, so a
  raising call leaves the session state as it found it.
\<close>

definition StateManager :: "string \<Rightarrow> session_state \<Rightarrow> session_state" where
  \<comment> \<open>\<^verbatim>\<open>__init__\<close>\<close>
  "StateManager tab_name st =
     (let ts = (case tabs_state st of None \<Rightarrow> [] | Some ts \<Rightarrow> ts)
      in st\<lparr>tabs_state :=
              Some (if map_of ts tab_name = None then AList.update tab_name [] ts else ts)\<rparr>)"

definition tab_dict :: "session_state \<Rightarrow> string \<Rightarrow> error + tab_state" where
  \<comment> \<open>the expression \<^verbatim>\<open>st.session_state["tabs_state"][self.tab_name]\<close>\<close>
  "tab_dict st tab_name =
     (case tabs_state st of
        None \<Rightarrow> Inl KeyError
      | Some ts \<Rightarrow> (case map_of ts tab_name of None \<Rightarrow> Inl KeyError | Some d \<Rightarrow> Inr d))"

definition put_tab :: "session_state \<Rightarrow> string \<Rightarrow> tab_state \<Rightarrow> session_state" where
  \<comment> \<open>the dictionary of \<open>tab_name\<close> after a mutation, or a new dictionary assigned to it\<close>
  "put_tab st tab_name d =
     st\<lparr>tabs_state := Some (AList.update tab_name d (case tabs_state st of None \<Rightarrow> [] | Some ts \<Rightarrow> ts))\<rparr>"

fun init_loop :: "(string \<times> pyval) list \<Rightarrow> string \<Rightarrow> session_state \<Rightarrow> error + session_state" where
  "init_loop [] tab_name st = Inr st"
| "init_loop ((key, v) # rest) tab_name st =
     (case tab_dict st tab_name of
        Inl e \<Rightarrow> Inl e
      | Inr d \<Rightarrow>
          if map_of d key = None
          then init_loop rest tab_name (put_tab st tab_name (AList.update key v d))
          else init_loop rest tab_name st)"

definition init :: "string \<Rightarrow> (string \<times> pyval) list \<Rightarrow> session_state \<Rightarrow> error + unit \<times> session_state" where
  "init tab_name defaults st =
     (case init_loop defaults tab_name st of Inl e \<Rightarrow> Inl e | Inr st' \<Rightarrow> Inr ((), st'))"

definition get :: "string \<Rightarrow> string \<Rightarrow> pyval \<Rightarrow> session_state \<Rightarrow> error + pyval \<times> session_state" where
  "get tab_name key dflt st =
     (case tab_dict st tab_name of
        Inl e \<Rightarrow> Inl e
      | Inr d \<Rightarrow> Inr (dict_get d key dflt, st))"

definition set_sm :: "string \<Rightarrow> string \<Rightarrow> pyval \<Rightarrow> session_state \<Rightarrow> error + unit \<times> session_state" where
  \<comment> \<open>\<^verbatim>\<open>StateManager.set\<close>\<close>
  "set_sm tab_name key v st =
     (case tab_dict st tab_name of
        Inl e \<Rightarrow> Inl e
      | Inr d \<Rightarrow> Inr ((), put_tab st tab_name (AList.update key v d)))"

fun reset_loop :: "string list \<Rightarrow> string \<Rightarrow> session_state \<Rightarrow> error + session_state" where
  "reset_loop [] tab_name st = Inr st"
| "reset_loop (k # ks) tab_name st =
     (case tab_dict st tab_name of
        Inl e \<Rightarrow> Inl e
      | Inr d \<Rightarrow> reset_loop ks tab_name (put_tab st tab_name (AList.delete k d)))"

text \<open>
  \<^verbatim>\<open>keys: list[str] | None\<close> is a \<open>string list option\<close>. The test \<^verbatim>\<open>if keys:\<close> is false
  for \<^verbatim>\<open>None\<close> and for the empty list.
\<close>

definition reset :: "string \<Rightarrow> string list option \<Rightarrow> session_state \<Rightarrow> error + unit \<times> session_state" where
  "reset tab_name keys st =
     (case keys of
        Some (k # ks) \<Rightarrow>
          (case reset_loop (k # ks) tab_name st of Inl e \<Rightarrow> Inl e | Inr st' \<Rightarrow> Inr ((), st'))
      | _ \<Rightarrow>
          (case tabs_state st of
             None \<Rightarrow> Inl KeyError
           | Some ts \<Rightarrow> Inr ((), put_tab st tab_name [])))"

definition get_all :: "string \<Rightarrow> session_state \<Rightarrow> error + tab_state \<times> session_state" where
  "get_all tab_name st =
     (case tab_dict st tab_name of Inl e \<Rightarrow> Inl e | Inr d \<Rightarrow> Inr (d, st))"

definition get_from_tab ::
  "string \<Rightarrow> string \<Rightarrow> string \<Rightarrow> pyval \<Rightarrow> session_state \<Rightarrow> error + pyval \<times> session_state" where
  \<comment> \<open>the first argument is the handle's own tab name, which the method does not use\<close>
  "get_from_tab self_tab tab_name key dflt st =
     (case tabs_state st of
        None \<Rightarrow> Inl KeyError
      | Some ts \<Rightarrow> Inr (dict_get (dict_get ts tab_name []) key dflt, st))"

fun copy_loop :: "string list \<Rightarrow> tab_state \<Rightarrow> string \<Rightarrow> session_state \<Rightarrow> error + session_state" where
  "copy_loop [] source_state tab_name st = Inr st"
| "copy_loop (k # ks) source_state tab_name st =
     (case map_of source_state k of
        None \<Rightarrow> copy_loop ks source_state tab_name st
      | Some v \<Rightarrow>
          (case tab_dict st tab_name of
             Inl e \<Rightarrow> Inl e
           | Inr d \<Rightarrow> copy_loop ks source_state tab_name (put_tab st tab_name (AList.update k v d))))"

definition copy_from_tab ::
  "string \<Rightarrow> string \<Rightarrow> string list option \<Rightarrow> session_state \<Rightarrow> error + unit \<times> session_state" where
  "copy_from_tab tab_name source_tab keys st =
     (case tabs_state st of
        None \<Rightarrow> Inl KeyError
      | Some ts \<Rightarrow>
          (let source_state = dict_get ts source_tab []
           in case keys of
                Some (k # ks) \<Rightarrow>
                  (case copy_loop (k # ks) source_state tab_name st of
                     Inl e \<Rightarrow> Inl e | Inr st' \<Rightarrow> Inr ((), st'))
              | _ \<Rightarrow>
                  (case tab_dict st tab_name of
                     Inl e \<Rightarrow> Inl e
                   | Inr d \<Rightarrow> Inr ((), put_tab st tab_name (dict_update d source_state)))))"

section \<open>Persistence\<close>

subsection \<open>JSON documents and the standard encoder\<close>

text \<open>
  \<^verbatim>\<open>json.dump\<close> and \<^verbatim>\<open>json.load\<close> belong to Python's library. They are modelled
  on documents rather than on text: a file holds the JSON document that was written to it,
  and reading gives that document back. A number is an integer or a float, as the parser
  tells them apart.

  The encoder runs within two limits of the interpreter, which are parameters here.
  \<^item> \<open>max_str_digits\<close> is \<^verbatim>\<open>sys.get_int_max_str_digits()\<close>, 4300 unless it is
    configured: the conversion of an integer of more decimal digits to a string raises
    \<^verbatim>\<open>ValueError\<close>. The value 0 switches the limit off.
  \<^item> \<open>max_depth\<close> is the number of nested calls that the recursion limit leaves to
    the encoder once it runs on the argument of \<^verbatim>\<open>json.dump\<close>; a call beyond it raises
    \<^verbatim>\<open>RecursionError\<close>. The encoder is one call deeper in each container that it has
    entered, it makes one call to convert a float, and two for an object of another type,
    which it hands to its method \<^verbatim>\<open>default\<close>.
  The decoder is modelled on the documents that it reads within the same limits, as it
  does every document that the encoder has written within them.
\<close>

record limits =
  max_str_digits :: nat
  max_depth :: nat

datatype json =
    JNull
  | JBool bool
  | JInt int
  | JFloat rat
  | JStr string
  | JArr "json list"
  | JObj "(string \<times> json) list"

definition digit_char :: "nat \<Rightarrow> char" where
  "digit_char n = ''0123456789'' ! n"

fun nat_str :: "nat \<Rightarrow> string" where
  "nat_str n = (if n < 10 then [digit_char n] else nat_str (n div 10) @ [digit_char (n mod 10)])"

declare nat_str.simps [simp del]

definition int_str :: "int \<Rightarrow> string" where
  "int_str i = (if i < 0 then CHR ''-'' # nat_str (nat (- i)) else nat_str (nat i))"

definition int_fits :: "limits \<Rightarrow> int \<Rightarrow> bool" where
  "int_fits lims i = (max_str_digits lims = 0 \<or> length (nat_str (nat \<bar>i\<bar>)) \<le> max_str_digits lims)"

text \<open>
  The encoder turns the key of a dictionary into a string: a string stays, \<^verbatim>\<open>True\<close>,
  \<^verbatim>\<open>False\<close> and \<^verbatim>\<open>None\<close> become \<^verbatim>\<open>true\<close>, \<^verbatim>\<open>false\<close> and \<^verbatim>\<open>null\<close>, an
  integer its decimal form; any other key raises \<^verbatim>\<open>TypeError\<close>.
\<close>

fun key_str :: "limits \<Rightarrow> pykey \<Rightarrow> error + string" where
  "key_str lims (KStr s) = Inr s"
| "key_str lims (KBool b) = Inr (if b then ''true'' else ''false'')"
| "key_str lims KNone = Inr ''null''"
| "key_str lims (KInt i) = (if int_fits lims i then Inr (int_str i) else Inl ValueError)"
| "key_str lims (KOther n) = Inl TypeError"

text \<open>
  Lists and tuples are written as arrays, dictionaries as objects, and an object of
  another type raises \<^verbatim>\<open>TypeError\<close> wherever it occurs. The argument \<open>n\<close> is the
  number of nested calls that are left.
\<close>

fun json_dump :: "limits \<Rightarrow> nat \<Rightarrow> pyval \<Rightarrow> error + json"
  and json_dump_list :: "limits \<Rightarrow> nat \<Rightarrow> pyval list \<Rightarrow> error + json list"
  and json_dump_items :: "limits \<Rightarrow> nat \<Rightarrow> (pykey \<times> pyval) list \<Rightarrow> error + (string \<times> json) list" where
  "json_dump lims n PNone = Inr JNull"
| "json_dump lims n (PBool b) = Inr (JBool b)"
| "json_dump lims n (PInt i) = (if int_fits lims i then Inr (JInt i) else Inl ValueError)"
| "json_dump lims n (PFloat q) = (if n = 0 then Inl RecursionError else Inr (JFloat q))"
| "json_dump lims n (PStr s) = Inr (JStr s)"
| "json_dump lims n (PList vs) =
     (if n = 0 then Inl RecursionError
      else case json_dump_list lims (n - 1) vs of Inl e \<Rightarrow> Inl e | Inr js \<Rightarrow> Inr (JArr js))"
| "json_dump lims n (PTuple vs) =
     (if n = 0 then Inl RecursionError
      else case json_dump_list lims (n - 1) vs of Inl e \<Rightarrow> Inl e | Inr js \<Rightarrow> Inr (JArr js))"
| "json_dump lims n (PDict kvs) =
     (if n = 0 then Inl RecursionError
      else case json_dump_items lims (n - 1) kvs of Inl e \<Rightarrow> Inl e | Inr ms \<Rightarrow> Inr (JObj ms))"
| "json_dump lims n (PObj k) = (if n < 2 then Inl RecursionError else Inl TypeError)"
| "json_dump_list lims n [] = Inr []"
| "json_dump_list lims n (v # vs) =
     (case json_dump lims n v of
        Inl e \<Rightarrow> Inl e
      | Inr j \<Rightarrow> (case json_dump_list lims n vs of Inl e \<Rightarrow> Inl e | Inr js \<Rightarrow> Inr (j # js)))"
| "json_dump_items lims n [] = Inr []"
| "json_dump_items lims n ((k, v) # kvs) =
     (case key_str lims k of
        Inl e \<Rightarrow> Inl e
      | Inr s \<Rightarrow>
          (case json_dump lims n v of
             Inl e \<Rightarrow> Inl e
           | Inr j \<Rightarrow>
               (case json_dump_items lims n kvs of Inl e \<Rightarrow> Inl e | Inr ms \<Rightarrow> Inr ((s, j) # ms))))"

text \<open>
  The decoder builds a dictionary from the members of an object by assigning them in
  their order, so a repeated member name keeps its first position and its last value.
\<close>

definition dict_of_items :: "('k \<times> 'v) list \<Rightarrow> ('k \<times> 'v) list" where
  "dict_of_items items = fold (\<lambda>(k, v). AList.update k v) items []"

fun json_load :: "json \<Rightarrow> pyval"
  and json_load_list :: "json list \<Rightarrow> pyval list"
  and json_load_items :: "(string \<times> json) list \<Rightarrow> (pykey \<times> pyval) list" where
  "json_load JNull = PNone"
| "json_load (JBool b) = PBool b"
| "json_load (JInt i) = PInt i"
| "json_load (JFloat q) = PFloat q"
| "json_load (JStr s) = PStr s"
| "json_load (JArr js) = PList (json_load_list js)"
| "json_load (JObj ms) = PDict (dict_of_items (json_load_items ms))"
| "json_load_list [] = []"
| "json_load_list (j # js) = json_load j # json_load_list js"
| "json_load_items [] = []"
| "json_load_items ((s, j) # ms) = (KStr s, json_load j) # json_load_items ms"

subsection \<open>Snapshot files\<close>

text \<open>
  A snapshot file holds an object whose members, one for each tab, are objects. The file
  system maps a file name to the document of the file, when the file exists. Files of
  another shape, and files that are not JSON, are not modelled.
\<close>

type_synonym snapshot = "(string \<times> (string \<times> json) list) list"
type_synonym filesystem = "string \<rightharpoonup> snapshot"

definition STATE_FILE :: string where
  "STATE_FILE = ''session_state.json''"

definition file_name :: "string option \<Rightarrow> string" where
  \<comment> \<open>\<^verbatim>\<open>filename or cls.STATE_FILE\<close>\<close>
  "file_name filename = (case filename of Some (c # cs) \<Rightarrow> c # cs | _ \<Rightarrow> STATE_FILE)"

fun isinstance_saved :: "pyval \<Rightarrow> bool" where
  \<comment> \<open>\<^verbatim>\<open>isinstance(v, (str, int, float, bool, list, dict))\<close>\<close>
  "isinstance_saved (PStr s) = True"
| "isinstance_saved (PInt i) = True"
| "isinstance_saved (PFloat q) = True"
| "isinstance_saved (PBool b) = True"
| "isinstance_saved (PList vs) = True"
| "isinstance_saved (PDict kvs) = True"
| "isinstance_saved PNone = False"
| "isinstance_saved (PTuple vs) = False"
| "isinstance_saved (PObj n) = False"

definition saved_data :: "session_state \<Rightarrow> tabs" where
  \<comment> \<open>the dictionary \<^verbatim>\<open>data\<close> that \<^verbatim>\<open>save_all\<close> builds\<close>
  "saved_data st =
     map (\<lambda>(tab, state). (tab, filter (\<lambda>(k, v). isinstance_saved v) state))
       (case tabs_state st of None \<Rightarrow> [] | Some ts \<Rightarrow> ts)"

text \<open>
  \<^verbatim>\<open>json.dump(data, f, indent=2)\<close>: the encoder enters the dictionary \<^verbatim>\<open>data\<close>, then
  the dictionary of each tab, and encodes the values of the tab inside the two.
\<close>

fun dump_state :: "limits \<Rightarrow> nat \<Rightarrow> tab_state \<Rightarrow> error + (string \<times> json) list" where
  "dump_state lims n [] = Inr []"
| "dump_state lims n ((k, v) # kvs) =
     (case json_dump lims n v of
        Inl e \<Rightarrow> Inl e
      | Inr j \<Rightarrow> (case dump_state lims n kvs of Inl e \<Rightarrow> Inl e | Inr ms \<Rightarrow> Inr ((k, j) # ms)))"

fun dump_tabs :: "limits \<Rightarrow> nat \<Rightarrow> tabs \<Rightarrow> error + snapshot" where
  "dump_tabs lims n [] = Inr []"
| "dump_tabs lims n ((tab, state) # rest) =
     (case (if n = 0 then Inl RecursionError else dump_state lims (n - 1) state) of
        Inl e \<Rightarrow> Inl e
      | Inr ms \<Rightarrow>
          (case dump_tabs lims n rest of Inl e \<Rightarrow> Inl e | Inr snap \<Rightarrow> Inr ((tab, ms) # snap)))"

definition dump_data :: "limits \<Rightarrow> tabs \<Rightarrow> error + snapshot" where
  "dump_data lims data =
     (if max_depth lims = 0 then Inl RecursionError else dump_tabs lims (max_depth lims - 1) data)"

definition save_all :: "limits \<Rightarrow> string option \<Rightarrow> session_state \<Rightarrow> filesystem \<Rightarrow> error + filesystem" where
  "save_all lims filename st fs =
     (case dump_data lims (saved_data st) of
        Inl e \<Rightarrow> Inl e
      | Inr snap \<Rightarrow> Inr (fs(file_name filename \<mapsto> snap)))"

definition load_state :: "(string \<times> json) list \<Rightarrow> tab_state" where
  "load_state ms = dict_of_items (map (\<lambda>(k, j). (k, json_load j)) ms)"

definition load_tabs :: "snapshot \<Rightarrow> tabs" where
  "load_tabs snap = dict_of_items (map (\<lambda>(tab, ms). (tab, load_state ms)) snap)"

definition load_all :: "string option \<Rightarrow> session_state \<Rightarrow> filesystem \<Rightarrow> error + session_state" where
  "load_all filename st fs =
     (case fs (file_name filename) of
        None \<Rightarrow> Inr st
      | Some snap \<Rightarrow> Inr (st\<lparr>tabs_state := Some (load_tabs snap)\<rparr>))"

section \<open>Objects and sharing\<close>

text \<open>
  The model above gives a dictionary by its items. That is what the methods read and
  assign, but it cannot tell an object from a copy of it. What \<^verbatim>\<open>get_all\<close> returns,
  \<^verbatim>\<open>dict(st.session_state["tabs_state"][self.tab_name])\<close>, is a new dictionary that holds
  the values of the tab's dictionary, and whether a change made through it reaches the
  store depends on which objects the two share. So \<^verbatim>\<open>get\<close> and \<^verbatim>\<open>get_all\<close> are
  given once more on a heap of objects: dictionaries and lists are objects with an
  address, allocation appends to the heap, and a container holds for each of its elements
  an immutable value (\<open>Atom\<close>) or the address of an object (\<open>Ref\<close>). \<open>tab_addr\<close>
  gives the dictionary object of each tab. The branches of an address outside the heap or
  of an object of the wrong kind belong to ill-formed states, which no run reaches.
\<close>

type_synonym addr = nat

datatype oval = Atom pyval | Ref addr

datatype pyobj = DictObj "(string \<times> oval) list" | ListObj "oval list"

record object_state =
  heap :: "pyobj list"
  tab_addr :: "(string \<times> addr) list"

definition lookup :: "pyobj list \<Rightarrow> addr \<Rightarrow> pyobj option" where
  "lookup h a = (if a < length h then Some (h ! a) else None)"

definition tab_object :: "object_state \<Rightarrow> string \<Rightarrow> error + (string \<times> oval) list" where
  "tab_object s tab_name =
     (case map_of (tab_addr s) tab_name of
        None \<Rightarrow> Inl KeyError
      | Some a \<Rightarrow> (case lookup (heap s) a of Some (DictObj d) \<Rightarrow> Inr d | _ \<Rightarrow> Inl TypeError))"

definition get_obj :: "string \<Rightarrow> string \<Rightarrow> oval \<Rightarrow> object_state \<Rightarrow> error + oval \<times> object_state" where
  "get_obj tab_name key dflt s =
     (case tab_object s tab_name of
        Inl e \<Rightarrow> Inl e
      | Inr d \<Rightarrow> Inr (dict_get d key dflt, s))"

definition get_all_obj :: "string \<Rightarrow> object_state \<Rightarrow> error + addr \<times> object_state" where
  "get_all_obj tab_name s =
     (case tab_object s tab_name of
        Inl e \<Rightarrow> Inl e
      | Inr d \<Rightarrow> Inr (length (heap s), s\<lparr>heap := heap s @ [DictObj d]\<rparr>))"

text \<open>
  What the caller can do with the objects it reaches: \<^verbatim>\<open>obj[k] = v\<close>,
  \<^verbatim>\<open>obj.pop(k, None)\<close> and \<^verbatim>\<open>obj[k]\<close> on a dictionary, \<^verbatim>\<open>obj.append(v)\<close> on a list.
\<close>

definition dict_setitem :: "addr \<Rightarrow> string \<Rightarrow> oval \<Rightarrow> pyobj list \<Rightarrow> error + pyobj list" where
  "dict_setitem a k v h =
     (case lookup h a of
        Some (DictObj d) \<Rightarrow> Inr (h[a := DictObj (AList.update k v d)])
      | _ \<Rightarrow> Inl TypeError)"

definition dict_pop :: "addr \<Rightarrow> string \<Rightarrow> pyobj list \<Rightarrow> error + pyobj list" where
  "dict_pop a k h =
     (case lookup h a of
        Some (DictObj d) \<Rightarrow> Inr (h[a := DictObj (AList.delete k d)])
      | _ \<Rightarrow> Inl TypeError)"

definition dict_getitem :: "addr \<Rightarrow> string \<Rightarrow> pyobj list \<Rightarrow> error + oval" where
  "dict_getitem a k h =
     (case lookup h a of
        Some (DictObj d) \<Rightarrow> (case map_of d k of None \<Rightarrow> Inl KeyError | Some v \<Rightarrow> Inr v)
      | _ \<Rightarrow> Inl TypeError)"

definition list_append :: "oval \<Rightarrow> oval \<Rightarrow> pyobj list \<Rightarrow> error + pyobj list" where
  "list_append target v h =
     (case target of
        Atom x \<Rightarrow> Inl TypeError
      | Ref a \<Rightarrow>
          (case lookup h a of
             Some (ListObj vs) \<Rightarrow> Inr (h[a := ListObj (vs @ [v])])
           | _ \<Rightarrow> Inl TypeError))"

text \<open>
  What a caller sees of \<^verbatim>\<open>get\<close>: the value returned and, when it is an object, the
  content of the object at that moment.
\<close>

definition observe_get ::
  "string \<Rightarrow> string \<Rightarrow> oval \<Rightarrow> object_state \<Rightarrow> error + oval \<times> pyobj option" where
  "observe_get tab_name key dflt s =
     (case get_obj tab_name key dflt s of
        Inl e \<Rightarrow> Inl e
      | Inr (v, s') \<Rightarrow> Inr (v, (case v of Atom x \<Rightarrow> None | Ref a \<Rightarrow> lookup (heap s') a)))"

text \<open>
  A heap is closed when every address held in one of its objects is an address of the heap.
\<close>

fun val_refs :: "oval \<Rightarrow> addr list" where
  "val_refs (Atom x) = []"
| "val_refs (Ref a) = [a]"

fun obj_refs :: "pyobj \<Rightarrow> addr list" where
  "obj_refs (DictObj d) = concat (map (\<lambda>(k, v). val_refs v) d)"
| "obj_refs (ListObj vs) = concat (map val_refs vs)"

definition closed :: "object_state \<Rightarrow> bool" where
  "closed s = (\<forall>ob \<in> set (heap s). \<forall>a \<in> set (obj_refs ob). a < length (heap s))"

section \<open>Notions used to state the properties\<close>





section \<open>Basic facts\<close>

lemma tab_dict_put_tab_same: "tab_dict (put_tab st t d) t = Inr d"
  by (simp add: tab_dict_def put_tab_def update_conv')

lemma tab_dict_put_tab_other: "t' \<noteq> t \<Longrightarrow> tab_dict (put_tab st t d) t' = tab_dict st t'"
  by (simp add: tab_dict_def put_tab_def update_conv' split: option.splits)


text \<open>
  The constructor leaves the tab of the handle in the session state, with the entries it
  had when it was there already. The theorems below about a handle assume that much: its
  tab is in the session state.
\<close>

lemma StateManager_binds:
  "tab_dict (StateManager tab st) tab =
     Inr (case tab_dict st tab of Inl e \<Rightarrow> [] | Inr d \<Rightarrow> d)"
  by (simp add: StateManager_def tab_dict_def update_conv' split: option.splits)

lemma StateManager_other:
  "other \<noteq> tab \<Longrightarrow> tabs_state st \<noteq> None \<Longrightarrow>
   tab_dict (StateManager tab st) other = tab_dict st other"
  by (auto simp: StateManager_def tab_dict_def update_conv' split: option.splits)

subsection \<open>The loops of the methods\<close>

lemma init_loop_spec:
  "tab_dict st t = Inr d \<Longrightarrow>
   \<exists>st' d'. init_loop defaults t st = Inr st' \<and> tab_dict st' t = Inr d' \<and>
     (\<forall>k. map_of d' k = (case map_of d k of Some v \<Rightarrow> Some v | None \<Rightarrow> map_of defaults k)) \<and>
     (\<forall>t'. t' \<noteq> t \<longrightarrow> tab_dict st' t' = tab_dict st t')"
proof (induction defaults arbitrary: st d)
  case Nil
  then show ?case by (simp split: option.splits)
next
  case (Cons p rest)
  obtain key v where p: "p = (key, v)" by (cases p)
  show ?case
  proof (cases "map_of d key")
    case None
    let ?st1 = "put_tab st t (AList.update key v d)"
    have td: "tab_dict ?st1 t = Inr (AList.update key v d)" by (rule tab_dict_put_tab_same)
    from Cons.IH[OF td] obtain st' d' where
      r: "init_loop rest t ?st1 = Inr st'" "tab_dict st' t = Inr d'"
         "\<forall>k. map_of d' k = (case map_of (AList.update key v d) k of Some v \<Rightarrow> Some v | None \<Rightarrow> map_of rest k)"
         "\<forall>t'. t' \<noteq> t \<longrightarrow> tab_dict st' t' = tab_dict ?st1 t'" by blast
    have "init_loop (p # rest) t st = Inr st'" using Cons.prems None r(1) by (simp add: p)
    moreover have "\<forall>k. map_of d' k = (case map_of d k of Some v \<Rightarrow> Some v | None \<Rightarrow> map_of (p # rest) k)"
      using r(3) None by (auto simp: p update_conv' split: option.splits)
    moreover have "\<forall>t'. t' \<noteq> t \<longrightarrow> tab_dict st' t' = tab_dict st t'"
      using r(4) by (simp add: tab_dict_put_tab_other)
    ultimately show ?thesis using r(2) by blast
  next
    case (Some w)
    from Cons.IH[OF Cons.prems] obtain st' d' where
      r: "init_loop rest t st = Inr st'" "tab_dict st' t = Inr d'"
         "\<forall>k. map_of d' k = (case map_of d k of Some v \<Rightarrow> Some v | None \<Rightarrow> map_of rest k)"
         "\<forall>t'. t' \<noteq> t \<longrightarrow> tab_dict st' t' = tab_dict st t'" by blast
    have "init_loop (p # rest) t st = Inr st'" using Cons.prems Some r(1) by (simp add: p)
    moreover have "\<forall>k. map_of d' k = (case map_of d k of Some v \<Rightarrow> Some v | None \<Rightarrow> map_of (p # rest) k)"
      using r(3) Some by (auto simp: p split: option.splits)
    ultimately show ?thesis using r(2,4) by blast
  qed
qed

lemma init_loop_other:
  "init_loop defaults t st = Inr st' \<Longrightarrow> t' \<noteq> t \<Longrightarrow> tab_dict st' t' = tab_dict st t'"
proof (induction defaults t st rule: init_loop.induct)
  case (1 t st)
  then show ?case by simp
next
  case (2 key v rest t st)
  then show ?case
    by (auto simp: tab_dict_put_tab_other split: sum.splits if_splits)
qed

lemma reset_loop_other:
  "reset_loop ks t st = Inr st' \<Longrightarrow> t' \<noteq> t \<Longrightarrow> tab_dict st' t' = tab_dict st t'"
proof (induction ks t st rule: reset_loop.induct)
  case (1 t st)
  then show ?case by simp
next
  case (2 k ks t st)
  then show ?case
    by (auto simp: tab_dict_put_tab_other split: sum.splits)
qed

lemma copy_loop_other:
  "copy_loop ks src t st = Inr st' \<Longrightarrow> t' \<noteq> t \<Longrightarrow> tab_dict st' t' = tab_dict st t'"
proof (induction ks src t st rule: copy_loop.induct)
  case (1 src t st)
  then show ?case by simp
next
  case (2 k ks src t st)
  then show ?case
    by (auto simp: tab_dict_put_tab_other split: sum.splits option.splits)
qed

lemma delete_filter: "AList.delete k d = filter (\<lambda>p. fst p \<noteq> k) d"
  by (induction d) auto

lemma reset_loop_spec:
  "tab_dict st t = Inr d \<Longrightarrow>
   \<exists>st'. reset_loop ks t st = Inr st' \<and> tab_dict st' t = Inr (filter (\<lambda>p. fst p \<notin> set ks) d)"
proof (induction ks arbitrary: st d)
  case Nil
  then show ?case by simp
next
  case (Cons k ks)
  let ?st1 = "put_tab st t (AList.delete k d)"
  have td: "tab_dict ?st1 t = Inr (AList.delete k d)" by (rule tab_dict_put_tab_same)
  from Cons.IH[OF td] obtain st' where
    r: "reset_loop ks t ?st1 = Inr st'"
       "tab_dict st' t = Inr (filter (\<lambda>p. fst p \<notin> set ks) (AList.delete k d))" by blast
  have "filter (\<lambda>p. fst p \<notin> set ks) (AList.delete k d) = filter (\<lambda>p. fst p \<notin> set (k # ks)) d"
    by (auto simp: delete_filter intro: filter_cong)
  with r Cons.prems show ?case by simp
qed

lemma copy_loop_spec:
  "tab_dict st t = Inr d \<Longrightarrow>
   \<exists>st' d'. copy_loop ks src t st = Inr st' \<and> tab_dict st' t = Inr d' \<and>
     (\<forall>k. map_of d' k = (if k \<in> set ks \<and> map_of src k \<noteq> None then map_of src k else map_of d k))"
proof (induction ks arbitrary: st d)
  case Nil
  then show ?case by simp
next
  case (Cons k ks)
  show ?case
  proof (cases "map_of src k")
    case None
    from Cons.IH[OF Cons.prems] obtain st' d' where
      r: "copy_loop ks src t st = Inr st'" "tab_dict st' t = Inr d'"
         "\<forall>k. map_of d' k = (if k \<in> set ks \<and> map_of src k \<noteq> None then map_of src k else map_of d k)"
      by blast
    have "copy_loop (k # ks) src t st = Inr st'" using None r(1) by simp
    moreover have "\<forall>k'. map_of d' k' =
        (if k' \<in> set (k # ks) \<and> map_of src k' \<noteq> None then map_of src k' else map_of d k')"
      using r(3) None by auto
    ultimately show ?thesis using r(2) by blast
  next
    case (Some v)
    let ?st1 = "put_tab st t (AList.update k v d)"
    have td: "tab_dict ?st1 t = Inr (AList.update k v d)" by (rule tab_dict_put_tab_same)
    from Cons.IH[OF td] obtain st' d' where
      r: "copy_loop ks src t ?st1 = Inr st'" "tab_dict st' t = Inr d'"
         "\<forall>k'. map_of d' k' = (if k' \<in> set ks \<and> map_of src k' \<noteq> None then map_of src k'
                  else map_of (AList.update k v d) k')"
      by blast
    have "copy_loop (k # ks) src t st = Inr st'" using Some r(1) Cons.prems by simp
    moreover have "\<forall>k'. map_of d' k' =
        (if k' \<in> set (k # ks) \<and> map_of src k' \<noteq> None then map_of src k' else map_of d k')"
      using r(3) Some by (auto simp: update_conv')
    ultimately show ?thesis using r(2) by blast
  qed
qed

lemma map_of_fold_update:
  "distinct (map fst src) \<Longrightarrow>
   map_of (fold (\<lambda>(k, v). AList.update k v) src d) k =
     (case map_of src k of None \<Rightarrow> map_of d k | Some v \<Rightarrow> Some v)"
proof (induction src arbitrary: d)
  case Nil
  then show ?case by simp
next
  case (Cons p src)
  obtain k0 v0 where p: "p = (k0, v0)" by (cases p)
  from Cons.prems have d: "distinct (map fst src)" and nin: "k0 \<notin> fst ` set src" by (auto simp: p)
  have "map_of src k0 = None" using nin by (simp add: map_of_eq_None_iff)
  then show ?case using Cons.IH[OF d, of "AList.update k0 v0 d"]
    by (auto simp: p update_conv' split: option.splits)
qed


subsection \<open>Encoding and decoding\<close>









section \<open>The properties of the specification\<close>

text \<open>
  Claim C6. \<^verbatim>\<open>init\<close>, on a handle whose tab is in the session state, sets the keys
  of \<open>defaults\<close> that the tab does not hold yet and leaves every value that the tab
  holds as it is. In particular, after \<^verbatim>\<open>init({K: V})\<close> a second \<^verbatim>\<open>init({K: V2})\<close>
  changes nothing, and \<^verbatim>\<open>get(K)\<close> gives \<open>V\<close>, or the value that \<open>K\<close> had before both
  calls when it had one.
\<close>

theorem init_first_write_wins:
  assumes "tab_dict st tab = Inr d"
  shows "\<exists>st' d'. init tab defaults st = Inr ((), st') \<and> tab_dict st' tab = Inr d' \<and>
           (\<forall>k. map_of d' k = (case map_of d k of Some v \<Rightarrow> Some v | None \<Rightarrow> map_of defaults k)) \<and>
           (\<forall>K V V2. defaults = [(K, V)] \<longrightarrow>
              (\<exists>st''. init tab [(K, V2)] st' = Inr ((), st'') \<and>
                 get tab K dflt st'' = Inr (dict_get d K V, st'')))"
proof -
  from init_loop_spec[OF assms, of defaults] obtain st' d' where
    r: "init_loop defaults tab st = Inr st'" "tab_dict st' tab = Inr d'"
       "\<forall>k. map_of d' k = (case map_of d k of Some v \<Rightarrow> Some v | None \<Rightarrow> map_of defaults k)"
    by blast
  have second: "\<exists>st''. init tab [(K, V2)] st' = Inr ((), st'') \<and>
                  get tab K dflt st'' = Inr (dict_get d K V, st'')"
    if "defaults = [(K, V)]" for K V V2
  proof -
    have present: "map_of d' K = Some (dict_get d K V)"
      using r(3) that by (simp add: dict_get_def split: option.splits)
    then have "init tab [(K, V2)] st' = Inr ((), st')"
      using r(2) by (simp add: init_def)
    moreover have "get tab K dflt st' = Inr (dict_get d K V, st')"
      using r(2) present by (simp add: get_def dict_get_def)
    ultimately show ?thesis by blast
  qed
  have "init tab defaults st = Inr ((), st')" using r(1) by (simp add: init_def)
  with r(2,3) second show ?thesis by blast
qed

theorem init_first_write_wins_witness:
  "tab_dict \<lparr>tabs_state = Some [(''t'', [(''a'', PInt 1)])]\<rparr> ''t'' = Inr [(''a'', PInt 1)] \<and>
   (\<exists>st' d'. init ''t'' [(''b'', PInt 2)] \<lparr>tabs_state = Some [(''t'', [(''a'', PInt 1)])]\<rparr> = Inr ((), st') \<and>
      tab_dict st' ''t'' = Inr d' \<and>
      (\<forall>k. map_of d' k = (case map_of [(''a'', PInt 1)] k of Some v \<Rightarrow> Some v
                           | None \<Rightarrow> map_of [(''b'', PInt 2)] k)) \<and>
      (\<forall>K V V2. [(''b'', PInt 2)] = [(K, V)] \<longrightarrow>
         (\<exists>st''. init ''t'' [(K, V2)] st' = Inr ((), st'') \<and>
            get ''t'' K PNone st'' = Inr (dict_get [(''a'', PInt 1)] K V, st''))))"
proof -
  have h: "tab_dict \<lparr>tabs_state = Some [(''t'', [(''a'', PInt 1)])]\<rparr> ''t'' = Inr [(''a'', PInt 1)]"
    by (simp add: tab_dict_def)
  from init_first_write_wins[OF h, of "[(''b'', PInt 2)]" PNone] h show ?thesis by blast
qed

text \<open>
  Claim C8. \<^verbatim>\<open>get_from_tab\<close>, called on a handle (so that \<^verbatim>\<open>"tabs_state"\<close> is in the
  session state), returns the stored value when the tab and the key both exist and the
  caller's default otherwise, and it leaves the session state as it is: the tab that is
  asked for is not created.
\<close>

theorem get_from_tab_reads:
  assumes "tabs_state st = Some ts"
  shows "get_from_tab self tab key dflt st =
     Inr ((case map_of ts tab of
             None \<Rightarrow> dflt
           | Some d \<Rightarrow> (case map_of d key of None \<Rightarrow> dflt | Some v \<Rightarrow> v)), st)"
  using assms by (simp add: get_from_tab_def dict_get_def split: option.splits)

theorem get_from_tab_reads_witness:
  "tabs_state \<lparr>tabs_state = Some [(''data_explorer'', [(''selected_city'', PStr ''Barcelona'')]),
                                  (''visual_plots'', [])]\<rparr>
     = Some [(''data_explorer'', [(''selected_city'', PStr ''Barcelona'')]), (''visual_plots'', [])] \<and>
   get_from_tab ''visual_plots'' ''data_explorer'' ''selected_city'' (PStr ''N/A'')
       \<lparr>tabs_state = Some [(''data_explorer'', [(''selected_city'', PStr ''Barcelona'')]),
                          (''visual_plots'', [])]\<rparr>
     = Inr (PStr ''Barcelona'',
         \<lparr>tabs_state = Some [(''data_explorer'', [(''selected_city'', PStr ''Barcelona'')]),
                          (''visual_plots'', [])]\<rparr>) \<and>
   get_from_tab ''visual_plots'' ''missing'' ''selected_city'' (PStr ''N/A'')
       \<lparr>tabs_state = Some [(''data_explorer'', [(''selected_city'', PStr ''Barcelona'')]),
                          (''visual_plots'', [])]\<rparr>
     = Inr (PStr ''N/A'',
         \<lparr>tabs_state = Some [(''data_explorer'', [(''selected_city'', PStr ''Barcelona'')]),
                          (''visual_plots'', [])]\<rparr>)"
  using get_from_tab_reads[of "\<lparr>tabs_state = Some [(''data_explorer'', [(''selected_city'', PStr ''Barcelona'')]),
                          (''visual_plots'', [])]\<rparr>" _ "''visual_plots''" "''data_explorer''" "''selected_city''" "PStr ''N/A''"]
    get_from_tab_reads[of "\<lparr>tabs_state = Some [(''data_explorer'', [(''selected_city'', PStr ''Barcelona'')]),
                          (''visual_plots'', [])]\<rparr>" _ "''visual_plots''" "''missing''" "''selected_city''" "PStr ''N/A''"]
  by simp

text \<open>
  Claim C10, as amended. On a handle bound to the tab \<open>N\<close>, \<^verbatim>\<open>get_from_tab(N, K, D)\<close>
  returns what \<^verbatim>\<open>get(K, D)\<close> returns as long as the session state holds the tab \<open>N\<close>.
  When it does not hold it any more, \<^verbatim>\<open>get\<close> raises \<^verbatim>\<open>KeyError\<close>, for it indexes
  \<^verbatim>\<open>tabs_state\<close> with the tab name, and \<^verbatim>\<open>get_from_tab\<close>, which reads with \<^verbatim>\<open>.get\<close>,
  returns the default.
\<close>

theorem get_from_tab_own:
  assumes "tabs_state st = Some ts"
  shows "(map_of ts N \<noteq> None \<longrightarrow> get_from_tab N N K D st = get N K D st) \<and>
         (map_of ts N = None \<longrightarrow>
            get N K D st = Inl KeyError \<and> get_from_tab N N K D st = Inr (D, st))"
  using assms
  by (auto simp: get_from_tab_def get_def tab_dict_def dict_get_def split: option.splits)

theorem get_from_tab_own_witness:
  "tabs_state \<lparr>tabs_state = Some [(''n'', [(''k'', PInt 7)])]\<rparr> = Some [(''n'', [(''k'', PInt 7)])] \<and>
   map_of [(''n'', [(''k'', PInt 7)])] ''n'' \<noteq> None \<and>
   get_from_tab ''n'' ''n'' ''k'' PNone \<lparr>tabs_state = Some [(''n'', [(''k'', PInt 7)])]\<rparr> =
     get ''n'' ''k'' PNone \<lparr>tabs_state = Some [(''n'', [(''k'', PInt 7)])]\<rparr> \<and>
   get ''n'' ''k'' PNone \<lparr>tabs_state = Some [(''n'', [(''k'', PInt 7)])]\<rparr> =
     Inr (PInt 7, \<lparr>tabs_state = Some [(''n'', [(''k'', PInt 7)])]\<rparr>) \<and>
   map_of [(''n'', [(''k'', PInt 7)])] ''gone'' = None \<and>
   get ''gone'' ''k'' PNone \<lparr>tabs_state = Some [(''n'', [(''k'', PInt 7)])]\<rparr> = Inl KeyError \<and>
   get_from_tab ''gone'' ''gone'' ''k'' PNone \<lparr>tabs_state = Some [(''n'', [(''k'', PInt 7)])]\<rparr> =
     Inr (PNone, \<lparr>tabs_state = Some [(''n'', [(''k'', PInt 7)])]\<rparr>)"
proof -
  let ?st = "\<lparr>tabs_state = Some [(''n'', [(''k'', PInt 7)])]\<rparr>"
  have h: "tabs_state ?st = Some [(''n'', [(''k'', PInt 7)])]" by simp
  have p: "map_of [(''n'', [(''k'', PInt 7)])] ''n'' \<noteq> None" by simp
  have a: "map_of [(''n'', [(''k'', PInt 7)])] ''gone'' = None" by simp
  from get_from_tab_own[OF h, of "''n''" "''k''" PNone] p
  have 1: "get_from_tab ''n'' ''n'' ''k'' PNone ?st = get ''n'' ''k'' PNone ?st" by blast
  from get_from_tab_own[OF h, of "''gone''" "''k''" PNone] a
  have 2: "get ''gone'' ''k'' PNone ?st = Inl KeyError"
    "get_from_tab ''gone'' ''gone'' ''k'' PNone ?st = Inr (PNone, ?st)" by blast+
  have 3: "get ''n'' ''k'' PNone ?st = Inr (PInt 7, ?st)"
    by (simp add: get_def tab_dict_def dict_get_def)
  from h p a 1 2 3 show ?thesis by simp
qed

text \<open>
  The claim as stated fails on a handle whose tab has left the session state. The
  constructor creates the tab \<^verbatim>\<open>n\<close>; \<^verbatim>\<open>load_all\<close> then replaces \<^verbatim>\<open>tabs_state\<close> by a
  snapshot that has no tab \<^verbatim>\<open>n\<close>; on the same handle \<^verbatim>\<open>get("k", 0)\<close> now raises
  \<^verbatim>\<open>KeyError\<close> and \<^verbatim>\<open>get_from_tab("n", "k", 0)\<close> returns 0.
\<close>

theorem get_from_tab_stale_handle_counterexample:
  "StateManager ''n'' \<lparr>tabs_state = None\<rparr> = \<lparr>tabs_state = Some [(''n'', [])]\<rparr> \<and>
   load_all None \<lparr>tabs_state = Some [(''n'', [])]\<rparr>
       [''session_state.json'' \<mapsto> [(''other'', [(''k'', JInt 1)])]]
     = Inr \<lparr>tabs_state = Some [(''other'', [(''k'', PInt 1)])]\<rparr> \<and>
   get ''n'' ''k'' (PInt 0) \<lparr>tabs_state = Some [(''other'', [(''k'', PInt 1)])]\<rparr> = Inl KeyError \<and>
   get_from_tab ''n'' ''n'' ''k'' (PInt 0) \<lparr>tabs_state = Some [(''other'', [(''k'', PInt 1)])]\<rparr>
     = Inr (PInt 0, \<lparr>tabs_state = Some [(''other'', [(''k'', PInt 1)])]\<rparr>)"
  by (simp add: StateManager_def load_all_def file_name_def STATE_FILE_def load_tabs_def
      load_state_def dict_of_items_def get_def get_from_tab_def tab_dict_def dict_get_def)

text \<open>
  Claim C3, as amended. On a handle whose tab is in the session state, \<^verbatim>\<open>reset(keys)\<close>
  with a list that is not empty removes the listed keys that the tab holds, ignores the
  listed keys that it does not hold, and leaves every other entry as it is, in its place.
  With the list omitted, and also with the empty list, \<^verbatim>\<open>reset\<close> empties the tab.
\<close>

theorem reset_listed_keys:
  assumes "tab_dict st tab = Inr d"
  shows "(keys \<noteq> [] \<longrightarrow>
            (\<exists>st'. reset tab (Some keys) st = Inr ((), st') \<and>
               tab_dict st' tab = Inr (filter (\<lambda>p. fst p \<notin> set keys) d))) \<and>
         (\<exists>st'. reset tab (Some []) st = Inr ((), st') \<and> tab_dict st' tab = Inr []) \<and>
         (\<exists>st'. reset tab None st = Inr ((), st') \<and> tab_dict st' tab = Inr [])"
proof -
  from assms obtain ts where ts: "tabs_state st = Some ts"
    by (auto simp: tab_dict_def split: option.splits)
  have listed: "\<exists>st'. reset tab (Some keys) st = Inr ((), st') \<and>
      tab_dict st' tab = Inr (filter (\<lambda>p. fst p \<notin> set keys) d)" if "keys \<noteq> []"
  proof -
    from that obtain k ks where keys: "keys = k # ks" by (cases keys) auto
    from reset_loop_spec[OF assms, of keys] obtain st' where
      "reset_loop keys tab st = Inr st'"
      "tab_dict st' tab = Inr (filter (\<lambda>p. fst p \<notin> set keys) d)" by blast
    then show ?thesis unfolding keys by (simp add: reset_def)
  qed
  have "reset tab (Some []) st = Inr ((), put_tab st tab [])"
    using ts by (simp add: reset_def)
  moreover have "reset tab None st = Inr ((), put_tab st tab [])"
    using ts by (simp add: reset_def)
  ultimately show ?thesis using listed by (simp add: tab_dict_put_tab_same)
qed

theorem reset_listed_keys_witness:
  "tab_dict \<lparr>tabs_state = Some [(''t'', [(''a'', PInt 1), (''b'', PInt 2), (''c'', PInt 3)])]\<rparr> ''t''
     = Inr [(''a'', PInt 1), (''b'', PInt 2), (''c'', PInt 3)] \<and>
   [''a'', ''zz''] \<noteq> [] \<and>
   (\<exists>st'. reset ''t'' (Some [''a'', ''zz''])
             \<lparr>tabs_state = Some [(''t'', [(''a'', PInt 1), (''b'', PInt 2), (''c'', PInt 3)])]\<rparr>
           = Inr ((), st') \<and>
         tab_dict st' ''t'' = Inr [(''b'', PInt 2), (''c'', PInt 3)])"
proof -
  have h: "tab_dict \<lparr>tabs_state = Some [(''t'', [(''a'', PInt 1), (''b'', PInt 2), (''c'', PInt 3)])]\<rparr> ''t''
     = Inr [(''a'', PInt 1), (''b'', PInt 2), (''c'', PInt 3)]"
    by (simp add: tab_dict_def)
  from reset_listed_keys[OF h, of "[''a'', ''zz'']"] h show ?thesis by simp
qed

text \<open>
  The claim as stated fails for the empty list: \<^verbatim>\<open>if keys:\<close> is false for it, so
  \<^verbatim>\<open>reset([])\<close> takes the branch that empties the tab, and the entry \<^verbatim>\<open>a\<close>, which is
  not listed, is gone.
\<close>

theorem reset_empty_list_counterexample:
  "reset ''t'' (Some []) \<lparr>tabs_state = Some [(''t'', [(''a'', PInt 1)])]\<rparr>
     = Inr ((), \<lparr>tabs_state = Some [(''t'', [])]\<rparr>) \<and>
   get ''t'' ''a'' PNone \<lparr>tabs_state = Some [(''t'', [(''a'', PInt 1)])]\<rparr>
     = Inr (PInt 1, \<lparr>tabs_state = Some [(''t'', [(''a'', PInt 1)])]\<rparr>) \<and>
   get ''t'' ''a'' PNone \<lparr>tabs_state = Some [(''t'', [])]\<rparr>
     = Inr (PNone, \<lparr>tabs_state = Some [(''t'', [])]\<rparr>)"
  by (simp add: reset_def put_tab_def get_def tab_dict_def dict_get_def)

text \<open>
  Claim C5. The code at the input where it departs from the claim: with the empty list,
  \<^verbatim>\<open>if keys:\<close> is false and \<^verbatim>\<open>copy_from_tab\<close> copies the whole source tab, although no
  key is listed and \<open>keys\<close> is not \<^verbatim>\<open>None\<close>.
\<close>

theorem copy_from_tab_empty_list_copies_all:
  "copy_from_tab ''dst'' ''src'' (Some [])
       \<lparr>tabs_state = Some [(''dst'', [(''a'', PInt 1)]), (''src'', [(''b'', PInt 2)])]\<rparr>
     = Inr ((), \<lparr>tabs_state = Some [(''dst'', [(''a'', PInt 1), (''b'', PInt 2)]),
                                     (''src'', [(''b'', PInt 2)])]\<rparr>)"
  by (simp add: copy_from_tab_def put_tab_def tab_dict_def dict_get_def dict_update_def)

text \<open>
  For a list that is not empty, and for \<^verbatim>\<open>None\<close>, the method does what the claim says.
\<close>

lemma copy_from_tab_listed:
  assumes "tab_dict st tab = Inr d" and "tabs_state st = Some ts" and "keys \<noteq> []"
  shows "\<exists>st' d'. copy_from_tab tab source_tab (Some keys) st = Inr ((), st') \<and>
           tab_dict st' tab = Inr d' \<and>
           (\<forall>k. map_of d' k =
              (if k \<in> set keys \<and> map_of (dict_get ts source_tab []) k \<noteq> None
               then map_of (dict_get ts source_tab []) k else map_of d k))"
proof -
  from assms(3) obtain k ks where keys: "keys = k # ks" by (cases keys) auto
  from copy_loop_spec[OF assms(1), of keys "dict_get ts source_tab []"] obtain st' d' where
    "copy_loop keys (dict_get ts source_tab []) tab st = Inr st'" "tab_dict st' tab = Inr d'"
    "\<forall>k. map_of d' k =
       (if k \<in> set keys \<and> map_of (dict_get ts source_tab []) k \<noteq> None
        then map_of (dict_get ts source_tab []) k else map_of d k)" by blast
  then show ?thesis using assms(2) unfolding keys by (simp add: copy_from_tab_def)
qed

lemma copy_from_tab_whole:
  assumes "tab_dict st tab = Inr d" and "tabs_state st = Some ts"
    and "distinct (map fst (dict_get ts source_tab []))"
  shows "\<exists>st' d'. copy_from_tab tab source_tab None st = Inr ((), st') \<and>
           tab_dict st' tab = Inr d' \<and>
           (\<forall>k. map_of d' k =
              (case map_of (dict_get ts source_tab []) k of None \<Rightarrow> map_of d k | Some v \<Rightarrow> Some v))"
  using assms
  by (simp add: copy_from_tab_def tab_dict_put_tab_same dict_update_def map_of_fold_update)

text \<open>
  Claim C9. A call of \<^verbatim>\<open>init\<close>, \<^verbatim>\<open>set\<close>, \<^verbatim>\<open>reset\<close> or \<^verbatim>\<open>copy_from_tab\<close> on a handle
  bound to \<open>tab\<close> leaves every other tab as it is: present with the same entries, or
  absent.
\<close>

theorem other_tabs_unchanged:
  assumes "other \<noteq> tab"
  shows "(init tab defaults st = Inr (u, st') \<longrightarrow> tab_dict st' other = tab_dict st other) \<and>
         (set_sm tab key v st = Inr (u, st') \<longrightarrow> tab_dict st' other = tab_dict st other) \<and>
         (reset tab keys st = Inr (u, st') \<longrightarrow> tab_dict st' other = tab_dict st other) \<and>
         (copy_from_tab tab source_tab keys st = Inr (u, st') \<longrightarrow>
            tab_dict st' other = tab_dict st other)"
proof (intro conjI impI)
  assume "init tab defaults st = Inr (u, st')"
  then have "init_loop defaults tab st = Inr st'"
    by (simp add: init_def split: sum.splits)
  from init_loop_other[OF this assms] show "tab_dict st' other = tab_dict st other" .
next
  assume "set_sm tab key v st = Inr (u, st')"
  then show "tab_dict st' other = tab_dict st other"
    using assms by (auto simp: set_sm_def tab_dict_put_tab_other split: sum.splits)
next
  assume r: "reset tab keys st = Inr (u, st')"
  show "tab_dict st' other = tab_dict st other"
  proof (cases "\<exists>k ks. keys = Some (k # ks)")
    case True
    then obtain k ks where keys: "keys = Some (k # ks)" by blast
    from r have "reset_loop (k # ks) tab st = Inr st'"
      unfolding keys by (simp add: reset_def split: sum.splits)
    from reset_loop_other[OF this assms] show ?thesis .
  next
    case False
    then have "keys = None \<or> keys = Some []" by (cases keys; cases "the keys") auto
    with r have "st' = put_tab st tab []"
      by (auto simp: reset_def split: option.splits)
    then show ?thesis using assms by (simp add: tab_dict_put_tab_other)
  qed
next
  assume c: "copy_from_tab tab source_tab keys st = Inr (u, st')"
  then obtain ts where ts: "tabs_state st = Some ts"
    by (auto simp: copy_from_tab_def split: option.splits)
  show "tab_dict st' other = tab_dict st other"
  proof (cases "\<exists>k ks. keys = Some (k # ks)")
    case True
    then obtain k ks where keys: "keys = Some (k # ks)" by blast
    from c have "copy_loop (k # ks) (dict_get ts source_tab []) tab st = Inr st'"
      unfolding keys using ts
      by (simp add: copy_from_tab_def Let_def del: copy_loop.simps split: sum.splits)
    from copy_loop_other[OF this assms] show ?thesis .
  next
    case False
    then have "keys = None \<or> keys = Some []" by (cases keys; cases "the keys") auto
    with c ts obtain d where "st' = put_tab st tab d"
      by (auto simp: copy_from_tab_def split: sum.splits)
    then show ?thesis using assms by (simp add: tab_dict_put_tab_other)
  qed
qed

theorem other_tabs_unchanged_witness:
  "''o'' \<noteq> ''t'' \<and>
   init ''t'' [(''c'', PInt 3)] \<lparr>tabs_state = Some [(''t'', [(''a'', PInt 1)]), (''o'', [(''b'', PInt 2)])]\<rparr>
     = Inr ((), \<lparr>tabs_state = Some [(''t'', [(''a'', PInt 1), (''c'', PInt 3)]), (''o'', [(''b'', PInt 2)])]\<rparr>) \<and>
   set_sm ''t'' ''a'' (PInt 5) \<lparr>tabs_state = Some [(''t'', [(''a'', PInt 1)]), (''o'', [(''b'', PInt 2)])]\<rparr>
     = Inr ((), \<lparr>tabs_state = Some [(''t'', [(''a'', PInt 5)]), (''o'', [(''b'', PInt 2)])]\<rparr>) \<and>
   reset ''t'' (Some [''a'']) \<lparr>tabs_state = Some [(''t'', [(''a'', PInt 1)]), (''o'', [(''b'', PInt 2)])]\<rparr>
     = Inr ((), \<lparr>tabs_state = Some [(''t'', []), (''o'', [(''b'', PInt 2)])]\<rparr>) \<and>
   copy_from_tab ''t'' ''o'' None \<lparr>tabs_state = Some [(''t'', [(''a'', PInt 1)]), (''o'', [(''b'', PInt 2)])]\<rparr>
     = Inr ((), \<lparr>tabs_state = Some [(''t'', [(''a'', PInt 1), (''b'', PInt 2)]), (''o'', [(''b'', PInt 2)])]\<rparr>) \<and>
   tab_dict \<lparr>tabs_state = Some [(''t'', [(''a'', PInt 1), (''c'', PInt 3)]), (''o'', [(''b'', PInt 2)])]\<rparr> ''o''
     = tab_dict \<lparr>tabs_state = Some [(''t'', [(''a'', PInt 1)]), (''o'', [(''b'', PInt 2)])]\<rparr> ''o'' \<and>
   tab_dict \<lparr>tabs_state = Some [(''t'', [(''a'', PInt 5)]), (''o'', [(''b'', PInt 2)])]\<rparr> ''o''
     = tab_dict \<lparr>tabs_state = Some [(''t'', [(''a'', PInt 1)]), (''o'', [(''b'', PInt 2)])]\<rparr> ''o'' \<and>
   tab_dict \<lparr>tabs_state = Some [(''t'', []), (''o'', [(''b'', PInt 2)])]\<rparr> ''o''
     = tab_dict \<lparr>tabs_state = Some [(''t'', [(''a'', PInt 1)]), (''o'', [(''b'', PInt 2)])]\<rparr> ''o'' \<and>
   tab_dict \<lparr>tabs_state = Some [(''t'', [(''a'', PInt 1), (''b'', PInt 2)]), (''o'', [(''b'', PInt 2)])]\<rparr> ''o''
     = tab_dict \<lparr>tabs_state = Some [(''t'', [(''a'', PInt 1)]), (''o'', [(''b'', PInt 2)])]\<rparr> ''o''"
proof -
  let ?st = "\<lparr>tabs_state = Some [(''t'', [(''a'', PInt 1)]), (''o'', [(''b'', PInt 2)])]\<rparr>"
  have ne: "''o'' \<noteq> ''t''" by simp
  have i: "init ''t'' [(''c'', PInt 3)] ?st
     = Inr ((), \<lparr>tabs_state = Some [(''t'', [(''a'', PInt 1), (''c'', PInt 3)]), (''o'', [(''b'', PInt 2)])]\<rparr>)"
    by (simp add: init_def tab_dict_def put_tab_def)
  have s: "set_sm ''t'' ''a'' (PInt 5) ?st
     = Inr ((), \<lparr>tabs_state = Some [(''t'', [(''a'', PInt 5)]), (''o'', [(''b'', PInt 2)])]\<rparr>)"
    by (simp add: set_sm_def tab_dict_def put_tab_def)
  have r: "reset ''t'' (Some [''a'']) ?st
     = Inr ((), \<lparr>tabs_state = Some [(''t'', []), (''o'', [(''b'', PInt 2)])]\<rparr>)"
    by (simp add: reset_def tab_dict_def put_tab_def)
  have c: "copy_from_tab ''t'' ''o'' None ?st
     = Inr ((), \<lparr>tabs_state = Some [(''t'', [(''a'', PInt 1), (''b'', PInt 2)]), (''o'', [(''b'', PInt 2)])]\<rparr>)"
    by (simp add: copy_from_tab_def tab_dict_def put_tab_def dict_get_def dict_update_def)
  note t = other_tabs_unchanged[OF ne, where st = ?st and u = "()"]
  from i t[where defaults = "[(''c'', PInt 3)]"]
  have 1: "tab_dict \<lparr>tabs_state = Some [(''t'', [(''a'', PInt 1), (''c'', PInt 3)]), (''o'', [(''b'', PInt 2)])]\<rparr> ''o''
     = tab_dict ?st ''o''" by blast
  from s t[where key = "''a''" and v = "PInt 5"]
  have 2: "tab_dict \<lparr>tabs_state = Some [(''t'', [(''a'', PInt 5)]), (''o'', [(''b'', PInt 2)])]\<rparr> ''o''
     = tab_dict ?st ''o''" by blast
  from r t[where keys = "Some [''a'']"]
  have 3: "tab_dict \<lparr>tabs_state = Some [(''t'', []), (''o'', [(''b'', PInt 2)])]\<rparr> ''o''
     = tab_dict ?st ''o''" by blast
  from c t[where source_tab = "''o''" and keys = None]
  have 4: "tab_dict \<lparr>tabs_state = Some [(''t'', [(''a'', PInt 1), (''b'', PInt 2)]), (''o'', [(''b'', PInt 2)])]\<rparr> ''o''
     = tab_dict ?st ''o''" by blast
  from ne i s r c 1 2 3 4 show ?thesis by blast
qed

text \<open>
  Claim C7. When the snapshot file does not exist, \<^verbatim>\<open>load_all\<close> raises nothing and
  leaves the session state as it is; when it exists, \<^verbatim>\<open>load_all\<close> puts the decoded
  content of the file in the place of the whole of \<^verbatim>\<open>tabs_state\<close>.
\<close>

theorem load_all_missing_or_replaces:
  "(fs (file_name filename) = None \<longrightarrow> load_all filename st fs = Inr st) \<and>
   (\<forall>snap. fs (file_name filename) = Some snap \<longrightarrow>
      load_all filename st fs = Inr (st\<lparr>tabs_state := Some (load_tabs snap)\<rparr>))"
  by (simp add: load_all_def)

theorem load_all_missing_or_replaces_witness:
  "Map.empty (file_name None) = (None :: snapshot option) \<and>
   load_all None \<lparr>tabs_state = Some [(''t'', [(''a'', PInt 1)])]\<rparr> Map.empty
     = Inr \<lparr>tabs_state = Some [(''t'', [(''a'', PInt 1)])]\<rparr> \<and>
   [''snap.json'' \<mapsto> [(''a'', [(''x'', JInt 1), (''y'', JArr [JInt 1, JInt 2, JInt 3])])]]
      (file_name (Some ''snap.json''))
     = Some [(''a'', [(''x'', JInt 1), (''y'', JArr [JInt 1, JInt 2, JInt 3])])] \<and>
   load_all (Some ''snap.json'') \<lparr>tabs_state = Some [(''t'', [(''a'', PInt 1)])]\<rparr>
      [''snap.json'' \<mapsto> [(''a'', [(''x'', JInt 1), (''y'', JArr [JInt 1, JInt 2, JInt 3])])]]
     = Inr \<lparr>tabs_state = Some [(''a'', [(''x'', PInt 1), (''y'', PList [PInt 1, PInt 2, PInt 3])])]\<rparr>"
  using load_all_missing_or_replaces[of Map.empty None "\<lparr>tabs_state = Some [(''t'', [(''a'', PInt 1)])]\<rparr>"]
    load_all_missing_or_replaces[of
      "[''snap.json'' \<mapsto> [(''a'', [(''x'', JInt 1), (''y'', JArr [JInt 1, JInt 2, JInt 3])])]]"
      "Some ''snap.json''" "\<lparr>tabs_state = Some [(''t'', [(''a'', PInt 1)])]\<rparr>"]
  by (simp add: file_name_def load_tabs_def load_state_def dict_of_items_def)

text \<open>
  Claim C4. The code at an input where it departs from the claim: the filter of
  \<^verbatim>\<open>save_all\<close> looks at the type of each value only, so a list that holds an object of
  another type passes it, and the encoder raises \<^verbatim>\<open>TypeError\<close>, whatever the limits of the
  interpreter are, unless they are so narrow that it raises \<^verbatim>\<open>RecursionError\<close> before it has
  reached the object.
\<close>

theorem save_all_nested_object_raises:
  "save_all lims None \<lparr>tabs_state = Some [(''a'', [(''x'', PInt 1), (''y'', PList [PObj 0])])]\<rparr> Map.empty
     = Inl (if max_depth lims < 5 then RecursionError else TypeError)"
proof -
  have one: "int_fits lims 1"
    by (cases "max_str_digits lims") (simp_all add: int_fits_def nat_str.simps)
  consider "max_depth lims = 0" | "max_depth lims = 1" | "max_depth lims = 2" | "max_depth lims = 3"
    | "max_depth lims = 4" | "5 \<le> max_depth lims" by linarith
  then show ?thesis
    by cases (simp_all add: save_all_def saved_data_def dump_data_def one)
qed




subsection \<open>The copy returned by get_all\<close>

lemma dict_get_refs:
  "set (val_refs (dict_get d key dflt)) \<subseteq> set (obj_refs (DictObj d)) \<union> set (val_refs dflt)"
proof (cases "map_of d key")
  case None
  then show ?thesis by (simp add: dict_get_def)
next
  case (Some v)
  then have "(key, v) \<in> set d" by (rule map_of_SomeD)
  then have "set (val_refs v) \<subseteq> set (obj_refs (DictObj d))" by force
  with Some show ?thesis by (auto simp: dict_get_def)
qed

text \<open>
  The dictionary that \<^verbatim>\<open>get_all\<close> returns is a new object with the items of the tab's
  dictionary, and the objects that were there are as they were.
\<close>

lemma get_all_obj_copy:
  assumes "get_all_obj tab s = Inr (r, s1)"
  shows "r = length (heap s) \<and> tab_object s tab = tab_object s1 tab \<and>
         (\<exists>d. tab_object s tab = Inr d \<and> lookup (heap s1) r = Some (DictObj d)) \<and>
         (\<forall>a. a < length (heap s) \<longrightarrow> lookup (heap s1) a = lookup (heap s) a)"
proof -
  from assms obtain d where d: "tab_object s tab = Inr d"
    and r: "r = length (heap s)" and s1: "s1 = s\<lparr>heap := heap s @ [DictObj d]\<rparr>"
    by (auto simp: get_all_obj_def split: sum.splits)
  have old: "lookup (heap s1) a = lookup (heap s) a" if "a < length (heap s)" for a
    using that by (simp add: s1 lookup_def nth_append)
  from d obtain t where "map_of (tab_addr s) tab = Some t" "t < length (heap s)"
    by (auto simp: tab_object_def lookup_def split: option.splits if_splits)
  then have "tab_object s1 tab = tab_object s tab"
    using old[of t] by (simp add: tab_object_def s1)
  moreover have "lookup (heap s1) r = Some (DictObj d)"
    by (simp add: s1 r lookup_def)
  ultimately show ?thesis using d r old by simp
qed

lemma dict_setitem_frame:
  "dict_setitem r k v h = Inr h2 \<Longrightarrow>
   length h2 = length h \<and> (\<forall>a. a < length h \<and> a \<noteq> r \<longrightarrow> h2 ! a = h ! a)"
  by (auto simp: dict_setitem_def split: option.splits pyobj.splits)

lemma dict_pop_frame:
  "dict_pop r k h = Inr h2 \<Longrightarrow>
   length h2 = length h \<and> (\<forall>a. a < length h \<and> a \<noteq> r \<longrightarrow> h2 ! a = h ! a)"
  by (auto simp: dict_pop_def split: option.splits pyobj.splits)

text \<open>
  Claim C2, as amended. \<^verbatim>\<open>get_all\<close> returns a new dictionary object. Whatever is done to
  that object itself (adding, replacing or removing its entries, here any heap \<open>h2\<close> that
  differs from the heap after the call at the new address only, or in objects allocated
  later), every object that existed before the call is as it was, and every later
  \<^verbatim>\<open>get\<close> on the tab returns the same value with the same content.
\<close>

theorem get_all_copy_is_shallow:
  assumes "closed s"
    and "get_all_obj tab s = Inr (r, s1)"
    and "length (heap s1) \<le> length h2"
    and "\<forall>a. a < length (heap s1) \<and> a \<noteq> r \<longrightarrow> h2 ! a = heap s1 ! a"
    and "\<forall>a \<in> set (val_refs dflt). a < length (heap s)"
  shows "observe_get tab key dflt (s1\<lparr>heap := h2\<rparr>) = observe_get tab key dflt s \<and>
         (\<forall>a. a < length (heap s) \<longrightarrow> lookup h2 a = lookup (heap s) a)"
proof -
  from assms(2) obtain d where d: "tab_object s tab = Inr d"
    and r: "r = length (heap s)" and s1: "s1 = s\<lparr>heap := heap s @ [DictObj d]\<rparr>"
    by (auto simp: get_all_obj_def split: sum.splits)
  from d obtain t where t: "map_of (tab_addr s) tab = Some t" "t < length (heap s)"
    "heap s ! t = DictObj d"
    by (auto simp: tab_object_def lookup_def split: option.splits if_splits pyobj.splits)
  have old: "lookup h2 a = lookup (heap s) a" if "a < length (heap s)" for a
  proof -
    from that have "a < length (heap s1)" "a \<noteq> r" by (simp_all add: s1 r)
    with assms(4) have "h2 ! a = heap s1 ! a" by blast
    moreover have "heap s1 ! a = heap s ! a" using that by (simp add: s1 nth_append)
    moreover have "a < length h2" using assms(3) \<open>a < length (heap s1)\<close> by simp
    ultimately show ?thesis using that by (simp add: lookup_def)
  qed
  have d': "tab_object (s1\<lparr>heap := h2\<rparr>) tab = Inr d"
    using t old[OF t(2)] by (simp add: tab_object_def s1 lookup_def)
  let ?v = "dict_get d key dflt"
  have "DictObj d \<in> set (heap s)" using t(2,3) by (metis nth_mem)
  with assms(1) have "\<forall>a \<in> set (obj_refs (DictObj d)). a < length (heap s)"
    by (simp add: closed_def)
  with assms(5) dict_get_refs[of d key dflt]
  have vr: "\<forall>a \<in> set (val_refs ?v). a < length (heap s)" by blast
  have "(case ?v of Atom x \<Rightarrow> None | Ref a \<Rightarrow> lookup (heap (s1\<lparr>heap := h2\<rparr>)) a)
      = (case ?v of Atom x \<Rightarrow> None | Ref a \<Rightarrow> lookup (heap s) a)"
    using vr old by (cases ?v) auto
  then have "observe_get tab key dflt (s1\<lparr>heap := h2\<rparr>) = observe_get tab key dflt s"
    using d d' by (simp add: observe_get_def get_obj_def)
  with old show ?thesis by blast
qed

theorem get_all_copy_is_shallow_witness:
  "closed \<lparr>heap = [DictObj [(''y'', Ref 1)], ListObj [Atom (PInt 1), Atom (PInt 2), Atom (PInt 3)]],
           tab_addr = [(''a'', 0)]\<rparr> \<and>
   get_all_obj ''a''
      \<lparr>heap = [DictObj [(''y'', Ref 1)], ListObj [Atom (PInt 1), Atom (PInt 2), Atom (PInt 3)]],
       tab_addr = [(''a'', 0)]\<rparr>
     = Inr (2, \<lparr>heap = [DictObj [(''y'', Ref 1)], ListObj [Atom (PInt 1), Atom (PInt 2), Atom (PInt 3)],
                        DictObj [(''y'', Ref 1)]],
                tab_addr = [(''a'', 0)]\<rparr>) \<and>
   dict_setitem 2 ''y'' (Atom (PInt 0))
      [DictObj [(''y'', Ref 1)], ListObj [Atom (PInt 1), Atom (PInt 2), Atom (PInt 3)],
       DictObj [(''y'', Ref 1)]]
     = Inr [DictObj [(''y'', Ref 1)], ListObj [Atom (PInt 1), Atom (PInt 2), Atom (PInt 3)],
            DictObj [(''y'', Atom (PInt 0))]] \<and>
   observe_get ''a'' ''y'' (Atom PNone)
      \<lparr>heap = [DictObj [(''y'', Ref 1)], ListObj [Atom (PInt 1), Atom (PInt 2), Atom (PInt 3)],
               DictObj [(''y'', Atom (PInt 0))]],
       tab_addr = [(''a'', 0)]\<rparr>
     = observe_get ''a'' ''y'' (Atom PNone)
         \<lparr>heap = [DictObj [(''y'', Ref 1)], ListObj [Atom (PInt 1), Atom (PInt 2), Atom (PInt 3)]],
          tab_addr = [(''a'', 0)]\<rparr> \<and>
   observe_get ''a'' ''y'' (Atom PNone)
      \<lparr>heap = [DictObj [(''y'', Ref 1)], ListObj [Atom (PInt 1), Atom (PInt 2), Atom (PInt 3)]],
       tab_addr = [(''a'', 0)]\<rparr>
     = Inr (Ref 1, Some (ListObj [Atom (PInt 1), Atom (PInt 2), Atom (PInt 3)]))"
proof -
  let ?h = "[DictObj [(''y'', Ref 1)], ListObj [Atom (PInt 1), Atom (PInt 2), Atom (PInt 3)]]"
  let ?s = "\<lparr>heap = ?h, tab_addr = [(''a'', 0)]\<rparr>"
  let ?h1 = "?h @ [DictObj [(''y'', Ref 1)]]"
  let ?s1 = "\<lparr>heap = ?h1, tab_addr = [(''a'', 0)]\<rparr>"
  let ?h2 = "?h @ [DictObj [(''y'', Atom (PInt 0))]]"
  have c: "closed ?s" by (simp add: closed_def)
  have g: "get_all_obj ''a'' ?s = Inr (2, ?s1)"
    by (simp add: get_all_obj_def tab_object_def lookup_def)
  have m: "dict_setitem 2 ''y'' (Atom (PInt 0)) ?h1 = Inr ?h2"
    by (simp add: dict_setitem_def lookup_def)
  from dict_setitem_frame[OF m]
  have f: "length (heap ?s1) \<le> length ?h2"
    "\<forall>a. a < length (heap ?s1) \<and> a \<noteq> 2 \<longrightarrow> ?h2 ! a = heap ?s1 ! a"
    by simp_all
  have dv: "\<forall>a \<in> set (val_refs (Atom PNone)). a < length (heap ?s)" by simp
  from get_all_copy_is_shallow[OF c g f dv, of "''y''"]
  have same: "observe_get ''a'' ''y'' (Atom PNone) (?s1\<lparr>heap := ?h2\<rparr>)
     = observe_get ''a'' ''y'' (Atom PNone) ?s" by blast
  have o: "observe_get ''a'' ''y'' (Atom PNone) ?s
     = Inr (Ref 1, Some (ListObj [Atom (PInt 1), Atom (PInt 2), Atom (PInt 3)]))"
    by (simp add: observe_get_def get_obj_def tab_object_def lookup_def dict_get_def)
  from c g m same o show ?thesis by simp
qed

text \<open>
  The claim as stated fails for a mutation of a nested value: the copy holds the very
  list that the store holds, so \<^verbatim>\<open>get_all()["y"].append(4)\<close> changes what \<^verbatim>\<open>get("y")\<close>
  returns afterwards.
\<close>

theorem get_all_nested_counterexample:
  "get_all_obj ''a''
      \<lparr>heap = [DictObj [(''y'', Ref 1)], ListObj [Atom (PInt 1), Atom (PInt 2), Atom (PInt 3)]],
       tab_addr = [(''a'', 0)]\<rparr>
     = Inr (2, \<lparr>heap = [DictObj [(''y'', Ref 1)], ListObj [Atom (PInt 1), Atom (PInt 2), Atom (PInt 3)],
                        DictObj [(''y'', Ref 1)]],
                tab_addr = [(''a'', 0)]\<rparr>) \<and>
   dict_getitem 2 ''y''
      [DictObj [(''y'', Ref 1)], ListObj [Atom (PInt 1), Atom (PInt 2), Atom (PInt 3)],
       DictObj [(''y'', Ref 1)]]
     = Inr (Ref 1) \<and>
   list_append (Ref 1) (Atom (PInt 4))
      [DictObj [(''y'', Ref 1)], ListObj [Atom (PInt 1), Atom (PInt 2), Atom (PInt 3)],
       DictObj [(''y'', Ref 1)]]
     = Inr [DictObj [(''y'', Ref 1)],
            ListObj [Atom (PInt 1), Atom (PInt 2), Atom (PInt 3), Atom (PInt 4)],
            DictObj [(''y'', Ref 1)]] \<and>
   observe_get ''a'' ''y'' (Atom PNone)
      \<lparr>heap = [DictObj [(''y'', Ref 1)], ListObj [Atom (PInt 1), Atom (PInt 2), Atom (PInt 3)]],
       tab_addr = [(''a'', 0)]\<rparr>
     = Inr (Ref 1, Some (ListObj [Atom (PInt 1), Atom (PInt 2), Atom (PInt 3)])) \<and>
   observe_get ''a'' ''y'' (Atom PNone)
      \<lparr>heap = [DictObj [(''y'', Ref 1)],
               ListObj [Atom (PInt 1), Atom (PInt 2), Atom (PInt 3), Atom (PInt 4)],
               DictObj [(''y'', Ref 1)]],
       tab_addr = [(''a'', 0)]\<rparr>
     = Inr (Ref 1, Some (ListObj [Atom (PInt 1), Atom (PInt 2), Atom (PInt 3), Atom (PInt 4)]))"
  by (simp add: get_all_obj_def tab_object_def lookup_def dict_getitem_def list_append_def
      observe_get_def get_obj_def dict_get_def)

end
